theory Spec2Isabelle
  imports Main
begin

section \<open>Go values used by pkg/configs\<close>

text \<open>
  A Go map is either nil or a finite table with one entry per key. Here it is an optional
  association list: \<open>None\<close> is the nil map, \<open>Some kvs\<close> a non-nil map whose entries
  are \<open>kvs\<close>. The order of \<open>kvs\<close> is the order in which one \<^verbatim>\<open>range\<close> statement
  visits the entries; Go leaves that order unspecified, so a property of the code has to hold
  for every order. A well-formed map has no key twice.
\<close>

type_synonym ('k, 'v) gomap = "('k \<times> 'v) list option"

definition wf_map :: "('k, 'v) gomap \<Rightarrow> bool" where
  "wf_map m = (case m of None \<Rightarrow> True | Some kvs \<Rightarrow> distinct (map fst kvs))"

text \<open>\<^verbatim>\<open>len(m)\<close>: 0 for the nil map.\<close>

definition len :: "('k, 'v) gomap \<Rightarrow> nat" where
  "len m = (case m of None \<Rightarrow> 0 | Some kvs \<Rightarrow> length kvs)"

text \<open>The entries a \<^verbatim>\<open>range m\<close> visits: none for the nil map.\<close>

definition entries :: "('k, 'v) gomap \<Rightarrow> ('k \<times> 'v) list" where
  "entries m = (case m of None \<Rightarrow> [] | Some kvs \<Rightarrow> kvs)"

text \<open>\<^verbatim>\<open>v, ok := m[k]\<close>: reading the nil map finds nothing and does not panic.\<close>

definition index :: "('k, 'v) gomap \<Rightarrow> 'k \<Rightarrow> 'v option" where
  "index m k = (case m of None \<Rightarrow> None | Some kvs \<Rightarrow> map_of kvs k)"

text \<open>
  A Go \<^verbatim>\<open>error\<close> value. \<open>Errorf msg\<close> is the value \<^verbatim>\<open>fmt.Errorf\<close> builds in this
  package (no \<^verbatim>\<open>%w\<close> verb is used, so it holds the formatted message only);
  \<open>Foreign msg\<close> is an error value made by a collaborator (encoding/json, rulefmt, promql,
  legacy_promql), of which the package only ever reads the message.
\<close>

datatype error = Errorf string | Foreign string

fun Error :: "error \<Rightarrow> string" where
  "Error (Errorf msg) = msg"
| "Error (Foreign msg) = msg"

text \<open>The verbs \<^verbatim>\<open>%d\<close> and \<^verbatim>\<open>%v\<close> of package fmt on a value of an integer type
  without a String method: the decimal digits, with a minus sign when negative.\<close>

fun nat_digits :: "nat \<Rightarrow> string" where
  "nat_digits n =
     (if n < 10 then [''0123456789'' ! n]
      else nat_digits (n div 10) @ [''0123456789'' ! (n mod 10)])"

declare nat_digits.simps [simp del]

definition fmt_d :: "int \<Rightarrow> string" where
  "fmt_d i = (if i < 0 then ''-'' @ nat_digits (nat (- i)) else nat_digits (nat i))"

section \<open>Identity and rule format version\<close>

type_synonym ID = int

type_synonym RuleFormatVersion = int

definition RuleFormatV1 :: RuleFormatVersion where
  "RuleFormatV1 = 0"

definition RuleFormatV2 :: RuleFormatVersion where
  "RuleFormatV2 = 1"

definition IsValid :: "RuleFormatVersion \<Rightarrow> bool" where
  "IsValid v = (if v = RuleFormatV1 \<or> v = RuleFormatV2 then True else False)"

section \<open>Rules configuration\<close>

record RulesConfig =
  FormatVersion :: RuleFormatVersion
  Files :: "(string, string) gomap"

text \<open>The loop of \<^verbatim>\<open>Equal\<close> over the entries of \<^verbatim>\<open>c.Files\<close>, looking each key up in
  \<^verbatim>\<open>o.Files\<close>; it returns false at the first key that is missing or holds another content.\<close>

fun Equal_range :: "(string \<times> string) list \<Rightarrow> (string, string) gomap \<Rightarrow> bool" where
  "Equal_range [] o_Files = True"
| "Equal_range ((k, v1) # rest) o_Files =
     (case index o_Files k of
        None \<Rightarrow> False
      | Some v2 \<Rightarrow> if v1 \<noteq> v2 then False else Equal_range rest o_Files)"

definition Equal :: "RulesConfig \<Rightarrow> RulesConfig \<Rightarrow> bool" where
  "Equal c o' =
     (if FormatVersion c \<noteq> FormatVersion o' then False
      else if len (Files o') \<noteq> len (Files c) then False
      else Equal_range (entries (Files c)) (Files o'))"

section \<open>Tenant configuration, view and versioned rules configuration\<close>

record Config =
  RulesConfig :: RulesConfig
  AlertmanagerConfig :: string

record configCompat =
  compat_RulesFiles :: "(string, string) gomap"
  compat_RuleFormatVersion :: RuleFormatVersion
  compat_AlertmanagerConfig :: string

text \<open>\<open>'t\<close> stands for \<^verbatim>\<open>time.Time\<close>, which the package only stores and copies.\<close>

record 't View =
  ID :: ID
  Config :: Config
  DeletedAt :: 't

record 't VersionedRulesConfig =
  vr_ID :: ID
  vr_Config :: RulesConfig
  vr_DeletedAt :: 't

text \<open>The result is a pointer: \<open>None\<close> is nil, \<open>Some vr\<close> points to a fresh \<open>vr\<close>.\<close>

definition GetVersionedRulesConfig :: "'t View \<Rightarrow> 't VersionedRulesConfig option" where
  "GetVersionedRulesConfig v =
     (if Files (RulesConfig (Config v)) = None then None
      else Some \<lparr>vr_ID = ID v, vr_Config = RulesConfig (Config v), vr_DeletedAt = DeletedAt v\<rparr>)"

section \<open>JSON encoding\<close>

text \<open>
  Package encoding/json and the quoting of the \<^verbatim>\<open>%q\<close> verb are collaborators, taken as
  parameters:
  \<^item> \<open>json_Unmarshal_string data s\<close> is \<^verbatim>\<open>json.Unmarshal(data, &s)\<close> for a string
    variable holding \<open>s\<close>: the error, or the new value of the variable;
  \<^item> \<open>json_Marshal_string s\<close> is \<^verbatim>\<open>json.Marshal(s)\<close> for a string \<open>s\<close>;
  \<^item> \<open>json_Unmarshal_map data m\<close> is \<^verbatim>\<open>json.Unmarshal(data, &m)\<close> for a variable of
    type \<^verbatim>\<open>map[string]string\<close> holding \<open>m\<close>;
  \<^item> \<open>json_members data\<close> scans \<open>data\<close> as a JSON object: the error, or its members,
    each a key and the raw text of its value, in the order of the text;
  \<^item> \<open>json_field tag key\<close> tells whether the key of a member selects the struct field
    tagged \<open>tag\<close> (encoding/json accepts the tag itself and its case-insensitive
    variants);
  \<^item> \<open>strconv_Quote s\<close> is the double-quoted Go literal that \<^verbatim>\<open>%q\<close> prints for \<open>s\<close>.
\<close>

record json_lib =
  json_Unmarshal_string :: "string \<Rightarrow> string \<Rightarrow> error + string"
  json_Marshal_string :: "string \<Rightarrow> error + string"
  json_Unmarshal_map :: "string \<Rightarrow> (string, string) gomap \<Rightarrow> error + (string, string) gomap"
  json_members :: "string \<Rightarrow> error + (string \<times> string) list"
  json_field :: "string \<Rightarrow> string \<Rightarrow> bool"
  strconv_Quote :: "string \<Rightarrow> string"


text \<open>The method has a pointer receiver: \<open>Inr v\<close> is the value it stores through the
  pointer before returning nil, \<open>Inl err\<close> the error it returns, having stored nothing.\<close>

definition RuleFormatVersion_UnmarshalJSON :: "json_lib \<Rightarrow> string \<Rightarrow> error + RuleFormatVersion" where
  "RuleFormatVersion_UnmarshalJSON J data =
     (case json_Unmarshal_string J data '''' of
        Inl err \<Rightarrow> Inl err
      | Inr s \<Rightarrow>
          if s = ''1'' then Inr RuleFormatV1
          else if s = ''2'' then Inr RuleFormatV2
          else Inl (Errorf (''unknown rule format version '' @ strconv_Quote J data)))"

text \<open>
  \<^verbatim>\<open>json.Unmarshal(data, &compat)\<close> for a \<^verbatim>\<open>configCompat\<close>, as encoding/json documents
  the decoding of an object into a struct: each member whose key selects a field is decoded
  into that field (the format version through its own \<^verbatim>\<open>UnmarshalJSON\<close>), a member that
  selects no field is skipped, and a field no member selects keeps the value it had. The
  first error ends the decoding here; the caller below only tests whether there was one.
\<close>

fun Unmarshal_members :: "json_lib \<Rightarrow> (string \<times> string) list \<Rightarrow> configCompat \<Rightarrow> error + configCompat" where
  "Unmarshal_members J [] cpt = Inr cpt"
| "Unmarshal_members J ((key, raw) # rest) cpt =
     (if json_field J ''rules_files'' key then
        (case json_Unmarshal_map J raw (compat_RulesFiles cpt) of
           Inl err \<Rightarrow> Inl err
         | Inr m \<Rightarrow> Unmarshal_members J rest (cpt\<lparr>compat_RulesFiles := m\<rparr>))
      else if json_field J ''rule_format_version'' key then
        (case RuleFormatVersion_UnmarshalJSON J raw of
           Inl err \<Rightarrow> Inl err
         | Inr v \<Rightarrow> Unmarshal_members J rest (cpt\<lparr>compat_RuleFormatVersion := v\<rparr>))
      else if json_field J ''alertmanager_config'' key then
        (case json_Unmarshal_string J raw (compat_AlertmanagerConfig cpt) of
           Inl err \<Rightarrow> Inl err
         | Inr s \<Rightarrow> Unmarshal_members J rest (cpt\<lparr>compat_AlertmanagerConfig := s\<rparr>))
      else Unmarshal_members J rest cpt)"

definition json_Unmarshal_configCompat :: "json_lib \<Rightarrow> string \<Rightarrow> configCompat \<Rightarrow> error + configCompat" where
  "json_Unmarshal_configCompat J data cpt =
     (case json_members J data of
        Inl err \<Rightarrow> Inl err
      | Inr members \<Rightarrow> Unmarshal_members J members cpt)"

text \<open>\<^verbatim>\<open>compat := configCompat{}\<close> is the zero value: a nil map, the integer 0, the empty
  string.\<close>

definition Config_UnmarshalJSON :: "json_lib \<Rightarrow> string \<Rightarrow> error + Config" where
  "Config_UnmarshalJSON J data =
     (case json_Unmarshal_configCompat J data
             \<lparr>compat_RulesFiles = None, compat_RuleFormatVersion = 0, compat_AlertmanagerConfig = ''''\<rparr> of
        Inl err \<Rightarrow> Inl err
      | Inr cpt \<Rightarrow>
          Inr \<lparr>RulesConfig = \<lparr>FormatVersion = compat_RuleFormatVersion cpt,
                                Files = compat_RulesFiles cpt\<rparr>,
               AlertmanagerConfig = compat_AlertmanagerConfig cpt\<rparr>)"

section \<open>Parsing rule files\<close>

text \<open>
  The rule types of the collaborators. \<^verbatim>\<open>rulefmt.Rule\<close> and \<^verbatim>\<open>rulefmt.RuleGroup\<close> are
  structs (of a group only the fields read here); a legacy statement is an
  \<^verbatim>\<open>*AlertStmt\<close>, a \<^verbatim>\<open>*RecordStmt\<close> or a value of any other dynamic type; a
  \<^verbatim>\<open>rules.Rule\<close> is what \<^verbatim>\<open>rules.NewAlertingRule\<close> or \<^verbatim>\<open>rules.NewRecordingRule\<close>
  built, recorded with the arguments it was built from (the logger left out). \<open>'x\<close> is the
  type of parsed expressions, \<open>'y\<close> of legacy expressions, \<open>'l\<close> of label sets;
  durations are integers.
\<close>

record rulefmt_Rule =
  Record :: string
  Alert :: string
  Expr :: string
  For :: int
  Labels :: "(string, string) gomap"
  Annotations :: "(string, string) gomap"

record rulefmt_RuleGroup =
  Name :: string
  Rules :: "rulefmt_Rule list"

datatype ('y, 'l) Stmt =
    AlertStmt string 'y int 'l 'l
  | RecordStmt string 'y 'l
  | OtherStmt

datatype ('x, 'l) Rule =
    NewAlertingRule string 'x int 'l 'l bool
  | NewRecordingRule string 'x 'l

text \<open>
  The parsers are collaborators, taken as parameters:
  \<^item> \<open>rulefmt_Parse content\<close> is \<^verbatim>\<open>rulefmt.Parse([]byte(content))\<close>: the groups of the
    result and the list of errors (the groups are read only when there is no error);
  \<^item> \<open>promql_ParseExpr\<close> is \<^verbatim>\<open>promql.ParseExpr\<close>;
  \<^item> \<open>legacy_ParseStmts\<close> is \<^verbatim>\<open>legacy_promql.ParseStmts\<close>;
  \<^item> \<open>Expr_String\<close> is the \<^verbatim>\<open>String\<close> method of a legacy expression;
  \<^item> \<open>labels_FromMap\<close> is \<^verbatim>\<open>labels.FromMap\<close>.
\<close>

record ('x, 'y, 'l) collab =
  rulefmt_Parse :: "string \<Rightarrow> rulefmt_RuleGroup list \<times> error list"
  promql_ParseExpr :: "string \<Rightarrow> error + 'x"
  legacy_ParseStmts :: "string \<Rightarrow> error + ('y, 'l) Stmt list"
  Expr_String :: "'y \<Rightarrow> string"
  labels_FromMap :: "(string, string) gomap \<Rightarrow> 'l"

text \<open>A result of \<open>Parse\<close> is the pair Go returns: the map (\<open>None\<close> is nil) and the
  error (\<open>None\<close> is nil). The result maps are only written, never ranged over, so they
  are functions from keys to rule lists.\<close>

type_synonym ('x, 'l) parsed = "(string \<rightharpoonup> ('x, 'l) Rule list) option \<times> error option"

text \<open>The loop over the rules of one group, appending to \<open>rls\<close>.\<close>

fun parseV2_rules ::
  "('x, 'y, 'l) collab \<Rightarrow> rulefmt_Rule list \<Rightarrow> ('x, 'l) Rule list \<Rightarrow> error + ('x, 'l) Rule list" where
  "parseV2_rules P [] rls = Inr rls"
| "parseV2_rules P (rl # rest) rls =
     (case promql_ParseExpr P (Expr rl) of
        Inl err \<Rightarrow> Inl err
      | Inr expr \<Rightarrow>
          if Alert rl \<noteq> '''' then
            parseV2_rules P rest
              (rls @ [NewAlertingRule (Alert rl) expr (For rl) (labels_FromMap P (Labels rl))
                        (labels_FromMap P (Annotations rl)) True])
          else
            parseV2_rules P rest
              (rls @ [NewRecordingRule (Record rl) expr (labels_FromMap P (Labels rl))]))"

text \<open>The key under which the rules of a group are stored: \<^verbatim>\<open>rg.Name+";"+fn\<close>.\<close>

definition group_key :: "string \<Rightarrow> string \<Rightarrow> string" where
  "group_key name fn = name @ '';'' @ fn"

text \<open>The loop over the groups of one file, storing into \<open>groups\<close>.\<close>

fun parseV2_groups ::
  "('x, 'y, 'l) collab \<Rightarrow> string \<Rightarrow> rulefmt_RuleGroup list \<Rightarrow> (string \<rightharpoonup> ('x, 'l) Rule list)
   \<Rightarrow> error + (string \<rightharpoonup> ('x, 'l) Rule list)" where
  "parseV2_groups P fn [] groups = Inr groups"
| "parseV2_groups P fn (rg # rest) groups =
     (case parseV2_rules P (Rules rg) [] of
        Inl err \<Rightarrow> Inl err
      | Inr rls \<Rightarrow> parseV2_groups P fn rest (groups(group_key (Name rg) fn \<mapsto> rls)))"

text \<open>The loop over the files.\<close>

fun parseV2_files ::
  "('x, 'y, 'l) collab \<Rightarrow> (string \<times> string) list \<Rightarrow> (string \<rightharpoonup> ('x, 'l) Rule list)
   \<Rightarrow> ('x, 'l) parsed" where
  "parseV2_files P [] groups = (Some groups, None)"
| "parseV2_files P ((fn, content) # rest) groups =
     (case rulefmt_Parse P content of
        (rgs, errs) \<Rightarrow>
          if length errs > 0 then
            (None, Some (Errorf (''error parsing '' @ fn @ '': '' @ Error (errs ! 0))))
          else
            (case parseV2_groups P fn rgs groups of
               Inl err \<Rightarrow> (None, Some err)
             | Inr groups' \<Rightarrow> parseV2_files P rest groups'))"

definition parseV2 :: "('x, 'y, 'l) collab \<Rightarrow> RulesConfig \<Rightarrow> ('x, 'l) parsed" where
  "parseV2 P c = parseV2_files P (entries (Files c)) Map.empty"

text \<open>The loop over the statements of one legacy file, appending to \<open>ra\<close>.\<close>

fun parseV1_stmts ::
  "('x, 'y, 'l) collab \<Rightarrow> ('y, 'l) Stmt list \<Rightarrow> ('x, 'l) Rule list \<Rightarrow> error + ('x, 'l) Rule list" where
  "parseV1_stmts P [] ra = Inr ra"
| "parseV1_stmts P (AlertStmt name e duration lbls anns # rest) ra =
     (case promql_ParseExpr P (Expr_String P e) of
        Inl err \<Rightarrow> Inl err
      | Inr expr \<Rightarrow> parseV1_stmts P rest (ra @ [NewAlertingRule name expr duration lbls anns True]))"
| "parseV1_stmts P (RecordStmt name e lbls # rest) ra =
     (case promql_ParseExpr P (Expr_String P e) of
        Inl err \<Rightarrow> Inl err
      | Inr expr \<Rightarrow> parseV1_stmts P rest (ra @ [NewRecordingRule name expr lbls]))"
| "parseV1_stmts P (OtherStmt # rest) ra =
     Inl (Errorf ''ruler.GetRules: unknown statement type'')"

text \<open>The loop over the legacy files, storing into \<open>result\<close>.\<close>

fun parseV1_files ::
  "('x, 'y, 'l) collab \<Rightarrow> (string \<times> string) list \<Rightarrow> (string \<rightharpoonup> ('x, 'l) Rule list)
   \<Rightarrow> ('x, 'l) parsed" where
  "parseV1_files P [] result = (Some result, None)"
| "parseV1_files P ((fn, content) # rest) result =
     (case legacy_ParseStmts P content of
        Inl err \<Rightarrow> (None, Some (Errorf (''error parsing '' @ fn @ '': '' @ Error err)))
      | Inr stmts \<Rightarrow>
          (case parseV1_stmts P stmts [] of
             Inl err \<Rightarrow> (None, Some err)
           | Inr ra \<Rightarrow> parseV1_files P rest (result(fn \<mapsto> ra))))"

definition parseV1 :: "('x, 'y, 'l) collab \<Rightarrow> RulesConfig \<Rightarrow> ('x, 'l) parsed" where
  "parseV1 P c = parseV1_files P (entries (Files c)) Map.empty"

definition Parse :: "('x, 'y, 'l) collab \<Rightarrow> RulesConfig \<Rightarrow> ('x, 'l) parsed" where
  "Parse P c =
     (if FormatVersion c = RuleFormatV1 then parseV1 P c
      else if FormatVersion c = RuleFormatV2 then parseV2 P c
      else (None, Some (Errorf (''unknown rule format version '' @ fmt_d (FormatVersion c)))))"

section \<open>Sample collaborators\<close>

text \<open>
  One concrete choice of the collaborators, defined on a handful of inputs, at which the
  definitions above can be evaluated. A parsed expression is its text, a legacy expression
  is the text it was parsed from, a label set is its list of pairs. The rule-group parser
  knows a few one-line YAML documents and reports an error for any other non-empty text;
  the expression parser accepts \<open>up\<close> and \<open>up == 0\<close> and rejects the empty text; the
  legacy parser knows one recording and one alerting statement. A legacy vector selector
  prints as its metric name followed by the matchers other than the equality on the name,
  so the selector \<^verbatim>\<open>{__name__="up"}\<close>, which has no metric name of its own, prints as
  the empty text.
\<close>

definition sample_rulefmt_Parse :: "string \<Rightarrow> rulefmt_RuleGroup list \<times> error list" where
  \<open>sample_rulefmt_Parse content =
     (if content = '''' then ([], [])
      else if content = ''groups: [{name: g, rules: [{record: r, expr: up}]}]'' then
        ([\<lparr>Name = ''g'', Rules = [\<lparr>Record = ''r'', Alert = '''', Expr = ''up'', For = 0,
                                       Labels = None, Annotations = None\<rparr>]\<rparr>], [])
      else if content = ''groups: [{name: "alerts;eu", rules: [{record: r, expr: up}]}]'' then
        ([\<lparr>Name = ''alerts;eu'', Rules = [\<lparr>Record = ''r'', Alert = '''', Expr = ''up'', For = 0,
                                               Labels = None, Annotations = None\<rparr>]\<rparr>], [])
      else if content = ''groups: [{name: alerts, rules: [{alert: Down, expr: up == 0, for: 5m}]}]'' then
        ([\<lparr>Name = ''alerts'', Rules = [\<lparr>Record = '''', Alert = ''Down'', Expr = ''up == 0'',
                                            For = 300000000000, Labels = None, Annotations = None\<rparr>]\<rparr>], [])
      else if content = ''groups: [{name: g, rules: [{expr: up}, {expr: up}]}]'' then
        ([], [Foreign ''group g, rule 0: one of record or alert must be set'',
              Foreign ''group g, rule 1: one of record or alert must be set''])
      else ([], [Foreign ''yaml: line 1: did not find expected node content'']))\<close>

definition sample_promql_ParseExpr :: "string \<Rightarrow> error + string" where
  \<open>sample_promql_ParseExpr input =
     (if input = ''up'' \<or> input = ''up == 0'' then Inr input
      else if input = '''' then
        Inl (Foreign ''parse error at char 1: no expression found in input'')
      else Inl (Foreign ''parse error at char 1: no valid expression found''))\<close>

definition sample_legacy_ParseStmts :: "string \<Rightarrow> error + (string, (string \<times> string) list) Stmt list" where
  \<open>sample_legacy_ParseStmts input =
     (if input = '''' then Inr []
      else if input = ''r = {__name__="up"}'' then Inr [RecordStmt ''r'' ''{__name__="up"}'' []]
      else if input = ''ALERT Down IF up == 0 FOR 5m'' then
        Inr [AlertStmt ''Down'' ''up == 0'' 300000000000 [] []]
      else Inl (Foreign ''parse error at line 1, char 1: no valid statement found''))\<close>

definition sample_Expr_String :: "string \<Rightarrow> string" where
  \<open>sample_Expr_String e = (if e = ''{__name__="up"}'' then '''' else e)\<close>

definition sample_collab :: "(string, string, (string \<times> string) list) collab" where
  "sample_collab =
     \<lparr>rulefmt_Parse = sample_rulefmt_Parse,
      promql_ParseExpr = sample_promql_ParseExpr,
      legacy_ParseStmts = sample_legacy_ParseStmts,
      Expr_String = sample_Expr_String,
      labels_FromMap = entries\<rparr>"

text \<open>
  The JSON side of the sample: string literals without escapes, a few objects, field keys
  matched exactly.
\<close>

definition sample_Unmarshal_string :: "string \<Rightarrow> string \<Rightarrow> error + string" where
  \<open>sample_Unmarshal_string data s =
     (if data = ''null'' then Inr s
      else if 2 \<le> length data \<and> hd data = CHR 0x22 \<and> last data = CHR 0x22
              \<and> CHR 0x22 \<notin> set (butlast (tl data)) \<and> CHR 0x5C \<notin> set (butlast (tl data))
      then Inr (butlast (tl data))
      else if data = ''1'' \<or> data = ''2'' then
        Inl (Foreign ''json: cannot unmarshal number into Go value of type string'')
      else Inl (Foreign ''json: cannot unmarshal into Go value of type string''))\<close>

definition sample_Quote :: "string \<Rightarrow> string" where
  \<open>sample_Quote s =
     CHR 0x22 # concat (map (\<lambda>c. if c = CHR 0x22 \<or> c = CHR 0x5C then [CHR 0x5C, c] else [c]) s)
       @ [CHR 0x22]\<close>

definition sample_Unmarshal_map :: "string \<Rightarrow> (string, string) gomap \<Rightarrow> error + (string, string) gomap" where
  \<open>sample_Unmarshal_map data m =
     (if data = ''null'' then Inr m
      else if data = ''{}'' then Inr (Some (entries m))
      else if data = ''{"a.rules": "x"}'' then
        Inr (Some ((''a.rules'', ''x'') # filter (\<lambda>kv. fst kv \<noteq> ''a.rules'') (entries m)))
      else Inl (Foreign ''json: cannot unmarshal into Go value of type map[string]string''))\<close>

definition sample_members :: "string \<Rightarrow> error + (string \<times> string) list" where
  \<open>sample_members data =
     (if data = ''null'' \<or> data = ''{}'' then Inr []
      else if data = ''{"rules_files": {"a.rules": "x"}, "alertmanager_config": "am"}'' then
        Inr [(''rules_files'', ''{"a.rules": "x"}''), (''alertmanager_config'', ''"am"'')]
      else if data = ''{"rules_files": {"a.rules": "x"}, "rule_format_version": "2"}'' then
        Inr [(''rules_files'', ''{"a.rules": "x"}''), (''rule_format_version'', ''"2"'')]
      else Inl (Foreign ''json: cannot unmarshal into Go value of type configs.configCompat''))\<close>

definition sample_json :: json_lib where
  \<open>sample_json =
     \<lparr>json_Unmarshal_string = sample_Unmarshal_string,
      json_Marshal_string = (\<lambda>s. Inr (CHR 0x22 # s @ [CHR 0x22])),
      json_Unmarshal_map = sample_Unmarshal_map,
      json_members = sample_members,
      json_field = (\<lambda>tag key. tag = key),
      strconv_Quote = sample_Quote\<rparr>\<close>

section \<open>Equality of rules configurations\<close>

lemma Equal_range_iff:
  "Equal_range kvs m \<longleftrightarrow> (\<forall>(k, v) \<in> set kvs. index m k = Some v)"
  by (induction kvs m rule: Equal_range.induct) (auto split: option.splits)

lemma index_entries:
  "wf_map m \<Longrightarrow> index m k = Some v \<longleftrightarrow> (k, v) \<in> set (entries m)"
  by (cases m) (simp_all add: wf_map_def index_def entries_def)

lemma len_card:
  "wf_map m \<Longrightarrow> len m = card (set (entries m))"
proof (cases m)
  case None
  then show ?thesis by (simp add: len_def entries_def)
next
  case (Some kvs)
  assume "wf_map m"
  with Some have "distinct (map fst kvs)" by (simp add: wf_map_def)
  then have "distinct kvs" by (simp add: distinct_map)
  then have "card (set kvs) = length kvs" by (rule distinct_card)
  with Some show ?thesis by (simp add: len_def entries_def)
qed

lemma Equal_range_subset:
  "wf_map m \<Longrightarrow> Equal_range kvs m \<longleftrightarrow> set kvs \<subseteq> set (entries m)"
  by (auto simp: Equal_range_iff index_entries)

text \<open>
  C1. For all rules configurations \<open>a\<close> and \<open>b\<close> (well-formed maps: no file name twice),
  \<open>Equal a b\<close> is true exactly when the format versions are equal and the two file
  mappings hold the same set of (name, content) pairs. The right-hand side does not
  mention the order of the entries, so the order is irrelevant; the nil and the empty
  mapping are covered, and \<open>Equal\<close> is a total function returning a boolean, so a mismatch
  is the value false.
\<close>

theorem Equal_iff_same_version_and_pairs:
  assumes "wf_map (Files a)" and "wf_map (Files b)"
  shows "Equal a b \<longleftrightarrow>
         FormatVersion a = FormatVersion b \<and> set (entries (Files a)) = set (entries (Files b))"
proof -
  let ?A = "set (entries (Files a))" and ?B = "set (entries (Files b))"
  have len_eq: "len (Files b) = len (Files a) \<longleftrightarrow> card ?B = card ?A"
    using assms by (simp add: len_card)
  have "card ?B = card ?A \<and> ?A \<subseteq> ?B \<longleftrightarrow> ?A = ?B"
  proof
    assume h: "card ?B = card ?A \<and> ?A \<subseteq> ?B"
    have "finite ?B" by simp
    with h show "?A = ?B" by (metis card_subset_eq)
  qed auto
  then show ?thesis
    using assms(2) len_eq by (auto simp: Equal_def Equal_range_subset)
qed

theorem Equal_iff_same_version_and_pairs_witness:
  "wf_map (Some [(''a.rules'', ''x''), (''b.rules'', ''y'')])
   \<and> wf_map (Some [(''b.rules'', ''y''), (''a.rules'', ''x'')])
   \<and> Equal \<lparr>FormatVersion = RuleFormatV2, Files = Some [(''a.rules'', ''x''), (''b.rules'', ''y'')]\<rparr>
           \<lparr>FormatVersion = RuleFormatV2, Files = Some [(''b.rules'', ''y''), (''a.rules'', ''x'')]\<rparr>"
proof -
  let ?a = "\<lparr>FormatVersion = RuleFormatV2, Files = Some [(''a.rules'', ''x''), (''b.rules'', ''y'')]\<rparr>"
  let ?b = "\<lparr>FormatVersion = RuleFormatV2, Files = Some [(''b.rules'', ''y''), (''a.rules'', ''x'')]\<rparr>"
  have wa: "wf_map (Files ?a)" and wb: "wf_map (Files ?b)"
    by (simp_all add: wf_map_def)
  have "Equal ?a ?b"
    using Equal_iff_same_version_and_pairs [OF wa wb] by (auto simp: entries_def)
  with wa wb show ?thesis by simp
qed

section \<open>The rules-only view\<close>

text \<open>
  C8. Projecting a view to its rules-only view gives nil exactly when the file mapping of
  its rules configuration is nil; otherwise it gives a versioned rules configuration with
  the ID, the rules configuration and the deletion timestamp of the view. In particular a
  set but empty file mapping gives a present view.
\<close>

theorem GetVersionedRulesConfig_nil_iff_unset:
  "(GetVersionedRulesConfig v = None \<longleftrightarrow> Files (RulesConfig (Config v)) = None)
   \<and> (Files (RulesConfig (Config v)) \<noteq> None \<longrightarrow>
        GetVersionedRulesConfig v =
          Some \<lparr>vr_ID = ID v, vr_Config = RulesConfig (Config v), vr_DeletedAt = DeletedAt v\<rparr>)
   \<and> (Files (RulesConfig (Config v)) = Some [] \<longrightarrow> GetVersionedRulesConfig v \<noteq> None)"
  by (simp add: GetVersionedRulesConfig_def)

theorem GetVersionedRulesConfig_nil_iff_unset_witness:
  "Files (RulesConfig (Config
      \<lparr>ID = 7, Config = \<lparr>RulesConfig = \<lparr>FormatVersion = RuleFormatV2, Files = Some []\<rparr>,
                         AlertmanagerConfig = ''am''\<rparr>, DeletedAt = (0::nat)\<rparr>)) = Some []
   \<and> GetVersionedRulesConfig
      \<lparr>ID = 7, Config = \<lparr>RulesConfig = \<lparr>FormatVersion = RuleFormatV2, Files = Some []\<rparr>,
                         AlertmanagerConfig = ''am''\<rparr>, DeletedAt = (0::nat)\<rparr>
     = Some \<lparr>vr_ID = 7, vr_Config = \<lparr>FormatVersion = RuleFormatV2, Files = Some []\<rparr>,
             vr_DeletedAt = 0\<rparr>"
  using GetVersionedRulesConfig_nil_iff_unset
    [of "\<lparr>ID = 7, Config = \<lparr>RulesConfig = \<lparr>FormatVersion = RuleFormatV2, Files = Some []\<rparr>,
                             AlertmanagerConfig = ''am''\<rparr>, DeletedAt = (0::nat)\<rparr>"]
  by simp

text \<open>
  C9. \<open>Equal\<close> does not tell a nil file mapping from a set but empty one: two rules
  configurations of the same format version, one with a nil and one with an empty file
  mapping, are equal in both directions, although the rules-only view of a view is nil for
  the first and present for the second.
\<close>

theorem Equal_nil_empty_but_views_differ:
  "Equal \<lparr>FormatVersion = fv, Files = None\<rparr> \<lparr>FormatVersion = fv, Files = Some []\<rparr>
   \<and> Equal \<lparr>FormatVersion = fv, Files = Some []\<rparr> \<lparr>FormatVersion = fv, Files = None\<rparr>
   \<and> GetVersionedRulesConfig
        \<lparr>ID = i, Config = \<lparr>RulesConfig = \<lparr>FormatVersion = fv, Files = None\<rparr>,
                           AlertmanagerConfig = am\<rparr>, DeletedAt = t\<rparr> = None
   \<and> GetVersionedRulesConfig
        \<lparr>ID = i, Config = \<lparr>RulesConfig = \<lparr>FormatVersion = fv, Files = Some []\<rparr>,
                           AlertmanagerConfig = am\<rparr>, DeletedAt = t\<rparr>
      = Some \<lparr>vr_ID = i, vr_Config = \<lparr>FormatVersion = fv, Files = Some []\<rparr>, vr_DeletedAt = t\<rparr>"
  by (simp add: Equal_def len_def entries_def GetVersionedRulesConfig_def)

section \<open>Dispatch on the format version\<close>

text \<open>
  C7. For every rules configuration whose format version is neither V1 nor V2, \<open>Parse\<close>
  returns a nil map together with the error "unknown rule format version" followed by the
  offending version in decimal.
\<close>

theorem Parse_unknown_version:
  assumes "FormatVersion c \<noteq> RuleFormatV1" and "FormatVersion c \<noteq> RuleFormatV2"
  shows "Parse P c =
         (None, Some (Errorf (''unknown rule format version '' @ fmt_d (FormatVersion c))))"
  using assms by (simp add: Parse_def)

theorem Parse_unknown_version_witness:
  "(7::int) \<noteq> RuleFormatV1 \<and> 7 \<noteq> RuleFormatV2
   \<and> Parse sample_collab \<lparr>FormatVersion = 7, Files = Some [(''a.rules'', '''')]\<rparr>
     = (None, Some (Errorf ''unknown rule format version 7''))"
proof -
  have v1: "FormatVersion \<lparr>FormatVersion = 7, Files = Some [(''a.rules'', '''')]\<rparr> \<noteq> RuleFormatV1"
    and v2: "FormatVersion \<lparr>FormatVersion = 7, Files = Some [(''a.rules'', '''')]\<rparr> \<noteq> RuleFormatV2"
    by (simp_all add: RuleFormatV1_def RuleFormatV2_def)
  have d: "fmt_d 7 = ''7''"
    by (simp add: fmt_d_def nat_digits.simps)
  show ?thesis
    using Parse_unknown_version [OF v1 v2, of sample_collab] d
    by (simp add: RuleFormatV1_def RuleFormatV2_def)
qed

text \<open>
  C10. Parsing a rules configuration of format version V1 or V2 whose file mapping is nil
  or empty returns the empty, non-nil map and no error, whatever the parsers are.
\<close>

theorem Parse_no_files:
  assumes "FormatVersion c = RuleFormatV1 \<or> FormatVersion c = RuleFormatV2"
    and "Files c = None \<or> Files c = Some []"
  shows "Parse P c = (Some Map.empty, None)"
  using assms by (auto simp: Parse_def parseV1_def parseV2_def entries_def)

theorem Parse_no_files_witness:
  "Parse sample_collab \<lparr>FormatVersion = RuleFormatV1, Files = None\<rparr> = (Some Map.empty, None)
   \<and> Parse sample_collab \<lparr>FormatVersion = RuleFormatV2, Files = Some []\<rparr> = (Some Map.empty, None)"
  using Parse_no_files [of "\<lparr>FormatVersion = RuleFormatV1, Files = None\<rparr>" sample_collab]
    Parse_no_files [of "\<lparr>FormatVersion = RuleFormatV2, Files = Some []\<rparr>" sample_collab]
  by simp

section \<open>Encoding and decoding the format version\<close>




section \<open>Decoding a tenant configuration\<close>

lemma Unmarshal_members_keeps_version:
  "Unmarshal_members J ms c0 = Inr c \<Longrightarrow>
   \<forall>(k, raw) \<in> set ms. \<not> json_field J ''rule_format_version'' k \<Longrightarrow>
   compat_RuleFormatVersion c = compat_RuleFormatVersion c0"
proof (induction J ms c0 rule: Unmarshal_members.induct)
  case (1 J cpt)
  then show ?case by simp
next
  case (2 J key raw rest cpt)
  then show ?case
    by (auto split: if_splits sum.splits)
qed

lemma Unmarshal_members_succeeds:
  "\<forall>(k, raw) \<in> set ms.
      \<not> json_field J ''rule_format_version'' k
      \<and> (json_field J ''rules_files'' k \<longrightarrow> (\<forall>m. \<exists>m'. json_Unmarshal_map J raw m = Inr m'))
      \<and> (json_field J ''alertmanager_config'' k \<longrightarrow> (\<forall>s. \<exists>s'. json_Unmarshal_string J raw s = Inr s')) \<Longrightarrow>
   \<exists>c. Unmarshal_members J ms c0 = Inr c"
proof (induction J ms c0 rule: Unmarshal_members.induct)
  case (1 J cpt)
  then show ?case by simp
next
  case (2 J key raw rest cpt)
  show ?case
  proof (cases "json_field J ''rules_files'' key")
    case True
    with "2.prems" have "\<forall>m. \<exists>m'. json_Unmarshal_map J raw m = Inr m'" by simp
    then obtain m' where m': "json_Unmarshal_map J raw (compat_RulesFiles cpt) = Inr m'"
      by blast
    from "2.IH"(1) [OF True m'] "2.prems" True m' show ?thesis by simp
  next
    case False
    note nf = this
    have nv: "\<not> json_field J ''rule_format_version'' key" using "2.prems" by simp
    show ?thesis
    proof (cases "json_field J ''alertmanager_config'' key")
      case True
      with "2.prems" have "\<forall>s. \<exists>s'. json_Unmarshal_string J raw s = Inr s'" by simp
      then obtain s' where s': "json_Unmarshal_string J raw (compat_AlertmanagerConfig cpt) = Inr s'"
        by blast
      from "2.IH"(3) [OF nf nv True s'] "2.prems" nf nv True s' show ?thesis by simp
    next
      case False
      from "2.IH"(4) [OF nf nv False] "2.prems" nf nv False show ?thesis by simp
    qed
  qed
qed

text \<open>
  C4. Decoding a tenant configuration record that omits the field
  \<^verbatim>\<open>rule_format_version\<close> succeeds and yields a configuration whose format version is V1,
  the zero value of the enumeration. The record is a JSON object none of whose members
  selects that field, and whose members for the two other fields decode.
\<close>

theorem Config_UnmarshalJSON_version_omitted:
  assumes "json_members J data = Inr ms"
    and "\<forall>(k, raw) \<in> set ms. \<not> json_field J ''rule_format_version'' k"
    and "\<forall>(k, raw) \<in> set ms.
           (json_field J ''rules_files'' k \<longrightarrow> (\<forall>m. \<exists>m'. json_Unmarshal_map J raw m = Inr m'))
         \<and> (json_field J ''alertmanager_config'' k \<longrightarrow>
              (\<forall>s. \<exists>s'. json_Unmarshal_string J raw s = Inr s'))"
  shows "\<exists>c. Config_UnmarshalJSON J data = Inr c
             \<and> FormatVersion (RulesConfig c) = RuleFormatV1 \<and> RuleFormatV1 = 0"
proof -
  let ?zero = "\<lparr>compat_RulesFiles = None, compat_RuleFormatVersion = 0,
                compat_AlertmanagerConfig = ''''\<rparr>"
  from assms(2,3) have "\<forall>(k, raw) \<in> set ms.
      \<not> json_field J ''rule_format_version'' k
      \<and> (json_field J ''rules_files'' k \<longrightarrow> (\<forall>m. \<exists>m'. json_Unmarshal_map J raw m = Inr m'))
      \<and> (json_field J ''alertmanager_config'' k \<longrightarrow> (\<forall>s. \<exists>s'. json_Unmarshal_string J raw s = Inr s'))"
    by fast
  then obtain cpt where cpt: "Unmarshal_members J ms ?zero = Inr cpt"
    using Unmarshal_members_succeeds by blast
  from Unmarshal_members_keeps_version [OF cpt assms(2)]
  have "compat_RuleFormatVersion cpt = 0" by simp
  with cpt assms(1) show ?thesis
    by (simp add: Config_UnmarshalJSON_def json_Unmarshal_configCompat_def RuleFormatV1_def)
qed

theorem Config_UnmarshalJSON_version_omitted_witness:
  \<open>json_members sample_json ''{"rules_files": {"a.rules": "x"}, "alertmanager_config": "am"}''
     = Inr [(''rules_files'', ''{"a.rules": "x"}''), (''alertmanager_config'', ''"am"'')]
   \<and> (\<exists>c. Config_UnmarshalJSON sample_json
              ''{"rules_files": {"a.rules": "x"}, "alertmanager_config": "am"}'' = Inr c
          \<and> FormatVersion (RulesConfig c) = RuleFormatV1 \<and> RuleFormatV1 = 0)\<close>
proof -
  let ?ms = \<open>[(''rules_files'', ''{"a.rules": "x"}''), (''alertmanager_config'', ''"am"'')]\<close>
  have ms: \<open>json_members sample_json
              ''{"rules_files": {"a.rules": "x"}, "alertmanager_config": "am"}'' = Inr ?ms\<close>
    by (simp add: sample_json_def sample_members_def)
  have omitted: "\<forall>(k, raw) \<in> set ?ms. \<not> json_field sample_json ''rule_format_version'' k"
    by (simp add: sample_json_def)
  have others: "\<forall>(k, raw) \<in> set ?ms.
           (json_field sample_json ''rules_files'' k \<longrightarrow>
              (\<forall>m. \<exists>m'. json_Unmarshal_map sample_json raw m = Inr m'))
         \<and> (json_field sample_json ''alertmanager_config'' k \<longrightarrow>
              (\<forall>s. \<exists>s'. json_Unmarshal_string sample_json raw s = Inr s'))"
    by (simp add: sample_json_def sample_Unmarshal_map_def sample_Unmarshal_string_def)
  from Config_UnmarshalJSON_version_omitted [OF ms omitted others] ms show ?thesis
    by simp
qed

section \<open>The loops of the two adapters\<close>

lemma RuleFormatV2_neq_V1: "RuleFormatV2 \<noteq> RuleFormatV1"
  by (simp add: RuleFormatV1_def RuleFormatV2_def)

lemma Parse_V2: "FormatVersion c = RuleFormatV2 \<Longrightarrow> Parse P c = parseV2_files P (entries (Files c)) Map.empty"
  by (simp add: Parse_def parseV2_def RuleFormatV2_neq_V1)


text \<open>Files that parse are passed over: the loop continues with the map they left.\<close>

lemma parseV2_files_append:
  "parseV2_files P pre g = (Some g', None) \<Longrightarrow>
   parseV2_files P (pre @ rest) g = parseV2_files P rest g'"
proof (induction pre arbitrary: g)
  case Nil
  then show ?case by simp
next
  case (Cons f pre)
  obtain fn content where f: "f = (fn, content)" by (cases f)
  obtain rgs errs where p: "rulefmt_Parse P content = (rgs, errs)" by (cases "rulefmt_Parse P content")
  show ?case
  proof (cases "parseV2_groups P fn rgs g")
    case (Inl err)
    with Cons.prems f p show ?thesis by (simp split: if_splits)
  next
    case (Inr g1)
    with Cons.prems f p have "parseV2_files P pre g1 = (Some g', None)"
      by (simp split: if_splits)
    from Cons.IH [OF this] Cons.prems f p Inr show ?thesis
      by (simp split: if_splits)
  qed
qed


text \<open>A file with a syntax error makes the whole loop fail, wherever it stands.\<close>

lemma parseV2_files_fails:
  "(fn, content) \<in> set fs \<Longrightarrow> snd (rulefmt_Parse P content) \<noteq> [] \<Longrightarrow>
   \<exists>e. parseV2_files P fs g = (None, Some e)"
proof (induction fs arbitrary: g)
  case Nil
  then show ?case by simp
next
  case (Cons f fs)
  obtain fn' content' where f: "f = (fn', content')" by (cases f)
  obtain rgs errs where p: "rulefmt_Parse P content' = (rgs, errs)"
    by (cases "rulefmt_Parse P content'")
  show ?case
  proof (cases "errs = []")
    case False
    with f p show ?thesis by simp
  next
    case True
    with Cons.prems f p have mem: "(fn, content) \<in> set fs" by auto
    show ?thesis
    proof (cases "parseV2_groups P fn' rgs g")
      case (Inl err)
      with f p True show ?thesis by simp
    next
      case (Inr g1)
      from Cons.IH [OF mem Cons.prems(2), of g1] f p True Inr show ?thesis by simp
    qed
  qed
qed

text \<open>The file at which the loop arrives with a syntax error is the one reported.\<close>

lemma parseV2_files_reports:
  assumes "parseV2_files P pre g = (Some g', None)"
    and "snd (rulefmt_Parse P content) \<noteq> []"
  shows "parseV2_files P (pre @ (fn, content) # post) g =
         (None, Some (Errorf (''error parsing '' @ fn @ '': ''
                               @ Error (snd (rulefmt_Parse P content) ! 0))))"
proof -
  obtain rgs errs where p: "rulefmt_Parse P content = (rgs, errs)"
    by (cases "rulefmt_Parse P content")
  with assms(2) have "errs \<noteq> []" by simp
  with p show ?thesis
    by (simp add: parseV2_files_append [OF assms(1)])
qed




section \<open>Failure of the group parser\<close>

text \<open>
  C2, as stated, fails: with two files that both fail the group parser, the error names the
  file visited first and not the other one. Here \<open>b.rules\<close> fails the group parser, and
  the error of \<open>Parse\<close> is about \<open>a.rules\<close>.
\<close>

theorem parseV2_group_failure_counterexample:
  "snd (rulefmt_Parse sample_collab ''groups: ['') \<noteq> []
   \<and> Parse sample_collab
        \<lparr>FormatVersion = RuleFormatV2,
         Files = Some [(''a.rules'', ''groups: [''), (''b.rules'', ''groups: ['')]\<rparr>
       = (None, Some (Errorf
            ''error parsing a.rules: yaml: line 1: did not find expected node content''))
   \<and> Parse sample_collab
        \<lparr>FormatVersion = RuleFormatV2,
         Files = Some [(''a.rules'', ''groups: [''), (''b.rules'', ''groups: ['')]\<rparr>
       \<noteq> (None, Some (Errorf (''error parsing '' @ ''b.rules'' @ '': ''
                    @ Error (snd (rulefmt_Parse sample_collab ''groups: ['') ! 0))))"
  by (simp add: Parse_V2 entries_def sample_collab_def sample_rulefmt_Parse_def)

text \<open>
  C2, amended. For every V2 rules configuration in which the content of some file fails the
  group parser, \<open>Parse\<close> returns an error and a nil map, so no rules of any file are
  returned. When every file visited before that file was parsed without error, the error is
  "error parsing", the name of that file, and the first error the group parser reported.
\<close>

theorem parseV2_group_failure:
  assumes "FormatVersion c = RuleFormatV2" and "Files c = Some fs"
    and "(fn, content) \<in> set fs" and "snd (rulefmt_Parse P content) \<noteq> []"
  shows "(\<exists>e. Parse P c = (None, Some e))
       \<and> (\<forall>pre post g. fs = pre @ (fn, content) # post
                         \<and> parseV2_files P pre Map.empty = (Some g, None) \<longrightarrow>
            Parse P c = (None, Some (Errorf (''error parsing '' @ fn @ '': ''
                                              @ Error (snd (rulefmt_Parse P content) ! 0)))))"
proof -
  have p: "Parse P c = parseV2_files P fs Map.empty"
    using assms(1,2) by (simp add: Parse_V2 entries_def)
  have "\<exists>e. Parse P c = (None, Some e)"
    unfolding p using assms(3,4) by (rule parseV2_files_fails)
  moreover have "Parse P c = (None, Some (Errorf (''error parsing '' @ fn @ '': ''
                                              @ Error (snd (rulefmt_Parse P content) ! 0))))"
    if "fs = pre @ (fn, content) # post" and "parseV2_files P pre Map.empty = (Some g, None)"
    for pre post g
    unfolding p that(1) using that(2) assms(4) by (rule parseV2_files_reports)
  ultimately show ?thesis by blast
qed

theorem parseV2_group_failure_witness:
  "snd (rulefmt_Parse sample_collab ''groups: [{name: g, rules: [{expr: up}, {expr: up}]}]'') \<noteq> []
   \<and> parseV2_files sample_collab
        [(''a.rules'', ''groups: [{name: g, rules: [{record: r, expr: up}]}]'')] Map.empty
       = (Some [''g;a.rules'' \<mapsto> [NewRecordingRule ''r'' ''up'' []]], None)
   \<and> Parse sample_collab
        \<lparr>FormatVersion = RuleFormatV2,
         Files = Some [(''a.rules'', ''groups: [{name: g, rules: [{record: r, expr: up}]}]''),
                       (''b.rules'', ''groups: [{name: g, rules: [{expr: up}, {expr: up}]}]'')]\<rparr>
       = (None, Some (Errorf
            ''error parsing b.rules: group g, rule 0: one of record or alert must be set''))"
proof -
  let ?good = "''groups: [{name: g, rules: [{record: r, expr: up}]}]''"
  let ?bad = "''groups: [{name: g, rules: [{expr: up}, {expr: up}]}]''"
  let ?fs = "[(''a.rules'', ?good), (''b.rules'', ?bad)]"
  let ?c = "\<lparr>FormatVersion = RuleFormatV2, Files = Some ?fs\<rparr>"
  have bad: "snd (rulefmt_Parse sample_collab ?bad)
             = [Foreign ''group g, rule 0: one of record or alert must be set'',
                Foreign ''group g, rule 1: one of record or alert must be set'']"
    by (simp add: sample_collab_def sample_rulefmt_Parse_def)
  then have fails: "snd (rulefmt_Parse sample_collab ?bad) \<noteq> []" by simp
  have pre: "parseV2_files sample_collab [(''a.rules'', ?good)] Map.empty
             = (Some [''g;a.rules'' \<mapsto> [NewRecordingRule ''r'' ''up'' []]], None)"
    by (simp add: sample_collab_def sample_rulefmt_Parse_def sample_promql_ParseExpr_def
        group_key_def entries_def)
  have v: "FormatVersion ?c = RuleFormatV2" and f: "Files ?c = Some ?fs"
    and mem: "(''b.rules'', ?bad) \<in> set ?fs"
    by simp_all
  have split: "?fs = [(''a.rules'', ?good)] @ (''b.rules'', ?bad) # []" by simp
  from parseV2_group_failure [OF v f mem fails] split pre
  have "Parse sample_collab ?c
        = (None, Some (Errorf (''error parsing '' @ ''b.rules'' @ '': ''
                                @ Error (snd (rulefmt_Parse sample_collab ?bad) ! 0))))"
    by blast
  with bad pre fails show ?thesis by simp
qed

section \<open>Which errors carry the file name\<close>




section \<open>The keys of the V2 result\<close>

text \<open>A key determines the group name and the file name when the names on one side of the
  semicolon contain none.\<close>

lemma split_at_first_semicolon:
  assumes "CHR '';'' \<notin> set n1" and "CHR '';'' \<notin> set n2"
    and "n1 @ CHR '';'' # f1 = n2 @ CHR '';'' # f2"
  shows "n1 = n2 \<and> f1 = f2"
proof -
  have t: "takeWhile (\<lambda>ch. ch \<noteq> CHR '';'') (n @ CHR '';'' # f) = n" if "CHR '';'' \<notin> set n" for n f
    using that by (induction n) auto
  from assms(3) have "takeWhile (\<lambda>ch. ch \<noteq> CHR '';'') (n1 @ CHR '';'' # f1)
                    = takeWhile (\<lambda>ch. ch \<noteq> CHR '';'') (n2 @ CHR '';'' # f2)"
    by simp
  with assms(1,2) have "n1 = n2" by (simp add: t)
  with assms(3) show ?thesis by simp
qed

lemma group_key_inj_names:
  "CHR '';'' \<notin> set n1 \<Longrightarrow> CHR '';'' \<notin> set n2 \<Longrightarrow> group_key n1 f1 = group_key n2 f2 \<Longrightarrow>
   n1 = n2 \<and> f1 = f2"
  using split_at_first_semicolon [of n1 n2 f1 f2] by (simp add: group_key_def)

lemma group_key_inj_files:
  assumes "CHR '';'' \<notin> set f1" and "CHR '';'' \<notin> set f2" and "group_key n1 f1 = group_key n2 f2"
  shows "n1 = n2 \<and> f1 = f2"
proof -
  from assms(3) have "rev (n1 @ CHR '';'' # f1) = rev (n2 @ CHR '';'' # f2)"
    by (simp add: group_key_def)
  then have "rev f1 @ CHR '';'' # rev n1 = rev f2 @ CHR '';'' # rev n2" by simp
  with assms(1,2) split_at_first_semicolon [of "rev f1" "rev f2" "rev n1" "rev n2"]
  show ?thesis by simp
qed

text \<open>The loops only add keys; what a key holds at the end was stored for a group with
  that key; every group of every file has its key in the result.\<close>

lemma parseV2_groups_dom:
  "parseV2_groups P fn rgs g = Inr g' \<Longrightarrow> g k \<noteq> None \<Longrightarrow> g' k \<noteq> None"
proof (induction rgs arbitrary: g)
  case Nil
  then show ?case by simp
next
  case (Cons rg rgs)
  from Cons.prems(1) obtain rls where rls: "parseV2_rules P (Rules rg) [] = Inr rls"
    and rest: "parseV2_groups P fn rgs (g(group_key (Name rg) fn \<mapsto> rls)) = Inr g'"
    by (auto split: sum.splits)
  from Cons.prems(2) have "(g(group_key (Name rg) fn \<mapsto> rls)) k \<noteq> None" by simp
  with rest show ?case by (rule Cons.IH)
qed

lemma parseV2_groups_present:
  "parseV2_groups P fn rgs g = Inr g' \<Longrightarrow> rg \<in> set rgs \<Longrightarrow>
   g' (group_key (Name rg) fn) \<noteq> None"
proof (induction rgs arbitrary: g)
  case Nil
  then show ?case by simp
next
  case (Cons rg0 rgs)
  from Cons.prems(1) obtain rls where rls: "parseV2_rules P (Rules rg0) [] = Inr rls"
    and rest: "parseV2_groups P fn rgs (g(group_key (Name rg0) fn \<mapsto> rls)) = Inr g'"
    by (auto split: sum.splits)
  show ?case
  proof (cases "rg = rg0")
    case True
    have "(g(group_key (Name rg0) fn \<mapsto> rls)) (group_key (Name rg0) fn) \<noteq> None" by simp
    with rest have "g' (group_key (Name rg0) fn) \<noteq> None" by (rule parseV2_groups_dom)
    with True show ?thesis by simp
  next
    case False
    with Cons.prems(2) have "rg \<in> set rgs" by simp
    with rest show ?thesis by (rule Cons.IH)
  qed
qed

lemma parseV2_groups_origin:
  "parseV2_groups P fn rgs g = Inr g' \<Longrightarrow> g' k = Some rls \<Longrightarrow>
   g k = Some rls
   \<or> (\<exists>rg \<in> set rgs. k = group_key (Name rg) fn \<and> parseV2_rules P (Rules rg) [] = Inr rls)"
proof (induction rgs arbitrary: g)
  case Nil
  then show ?case by simp
next
  case (Cons rg0 rgs)
  from Cons.prems(1) obtain rls0 where rls0: "parseV2_rules P (Rules rg0) [] = Inr rls0"
    and rest: "parseV2_groups P fn rgs (g(group_key (Name rg0) fn \<mapsto> rls0)) = Inr g'"
    by (auto split: sum.splits)
  from Cons.IH [OF rest Cons.prems(2)]
  have "(g(group_key (Name rg0) fn \<mapsto> rls0)) k = Some rls
        \<or> (\<exists>rg \<in> set rgs. k = group_key (Name rg) fn \<and> parseV2_rules P (Rules rg) [] = Inr rls)" .
  then show ?case
  proof
    assume "(g(group_key (Name rg0) fn \<mapsto> rls0)) k = Some rls"
    with rls0 show ?thesis by (cases "k = group_key (Name rg0) fn") auto
  next
    assume "\<exists>rg \<in> set rgs. k = group_key (Name rg) fn \<and> parseV2_rules P (Rules rg) [] = Inr rls"
    then show ?thesis by auto
  qed
qed

lemma parseV2_files_step:
  assumes "parseV2_files P ((fn, content) # fs) g = (Some res, None)"
  obtains g1 where "snd (rulefmt_Parse P content) = []"
    and "parseV2_groups P fn (fst (rulefmt_Parse P content)) g = Inr g1"
    and "parseV2_files P fs g1 = (Some res, None)"
proof -
  obtain rgs errs where p: "rulefmt_Parse P content = (rgs, errs)"
    by (cases "rulefmt_Parse P content")
  from assms p have e: "errs = []" by (auto split: if_splits)
  from assms p e obtain g1 where "parseV2_groups P fn rgs g = Inr g1"
    and "parseV2_files P fs g1 = (Some res, None)"
    by (auto split: sum.splits)
  with p e that show thesis by simp
qed

lemma parseV2_files_dom:
  "parseV2_files P fs g = (Some res, None) \<Longrightarrow> g k \<noteq> None \<Longrightarrow> res k \<noteq> None"
proof (induction fs arbitrary: g)
  case Nil
  then show ?case by simp
next
  case (Cons f fs)
  obtain fn content where f: "f = (fn, content)" by (cases f)
  from Cons.prems(1) [unfolded f] obtain g1
    where g1: "parseV2_groups P fn (fst (rulefmt_Parse P content)) g = Inr g1"
      and rest: "parseV2_files P fs g1 = (Some res, None)"
    by (rule parseV2_files_step)
  from g1 Cons.prems(2) have "g1 k \<noteq> None" by (rule parseV2_groups_dom)
  with rest show ?case by (rule Cons.IH)
qed

lemma parseV2_files_present:
  "parseV2_files P fs g = (Some res, None) \<Longrightarrow> (fn, content) \<in> set fs \<Longrightarrow>
   rg \<in> set (fst (rulefmt_Parse P content)) \<Longrightarrow> res (group_key (Name rg) fn) \<noteq> None"
proof (induction fs arbitrary: g)
  case Nil
  then show ?case by simp
next
  case (Cons f fs)
  obtain fn0 content0 where f: "f = (fn0, content0)" by (cases f)
  from Cons.prems(1) [unfolded f] obtain g1
    where g1: "parseV2_groups P fn0 (fst (rulefmt_Parse P content0)) g = Inr g1"
      and rest: "parseV2_files P fs g1 = (Some res, None)"
    by (rule parseV2_files_step)
  show ?case
  proof (cases "(fn, content) = (fn0, content0)")
    case True
    with g1 Cons.prems(3) have "g1 (group_key (Name rg) fn) \<noteq> None"
      by (simp add: parseV2_groups_present)
    with rest show ?thesis by (rule parseV2_files_dom)
  next
    case False
    with Cons.prems(2) f have "(fn, content) \<in> set fs" by auto
    from Cons.IH [OF rest this Cons.prems(3)] show ?thesis .
  qed
qed

lemma parseV2_files_origin:
  "parseV2_files P fs g = (Some res, None) \<Longrightarrow> res k = Some rls \<Longrightarrow>
   g k = Some rls
   \<or> (\<exists>(fn, content) \<in> set fs. \<exists>rg \<in> set (fst (rulefmt_Parse P content)).
         k = group_key (Name rg) fn \<and> parseV2_rules P (Rules rg) [] = Inr rls)"
proof (induction fs arbitrary: g)
  case Nil
  then show ?case by simp
next
  case (Cons f fs)
  obtain fn0 content0 where f: "f = (fn0, content0)" by (cases f)
  from Cons.prems(1) [unfolded f] obtain g1
    where g1: "parseV2_groups P fn0 (fst (rulefmt_Parse P content0)) g = Inr g1"
      and rest: "parseV2_files P fs g1 = (Some res, None)"
    by (rule parseV2_files_step)
  from Cons.IH [OF rest Cons.prems(2)]
  have "g1 k = Some rls
        \<or> (\<exists>(fn, content) \<in> set fs. \<exists>rg \<in> set (fst (rulefmt_Parse P content)).
              k = group_key (Name rg) fn \<and> parseV2_rules P (Rules rg) [] = Inr rls)" .
  then show ?case
  proof
    assume "g1 k = Some rls"
    from parseV2_groups_origin [OF g1 this] f show ?thesis by auto
  next
    assume "\<exists>(fn, content) \<in> set fs. \<exists>rg \<in> set (fst (rulefmt_Parse P content)).
              k = group_key (Name rg) fn \<and> parseV2_rules P (Rules rg) [] = Inr rls"
    then show ?thesis by auto
  qed
qed

text \<open>
  C5, as stated, fails: two distinct (file, group) pairs of one configuration can have the
  same key. The group \<open>alerts;eu\<close> of the file \<open>rules\<close> and the group \<open>alerts\<close> of the
  file \<open>eu;rules\<close> both have the key \<open>alerts;eu;rules\<close>, and the result of \<open>Parse\<close> holds
  a single entry, with the rules of the group stored last.
\<close>

theorem parseV2_group_keys_counterexample:
  \<open>(''rules'', ''alerts;eu'') \<noteq> (''eu;rules'', ''alerts'')
   \<and> ''alerts;eu'' @ '';'' @ ''rules'' = ''alerts'' @ '';'' @ ''eu;rules''
   \<and> map Name (fst (rulefmt_Parse sample_collab
          ''groups: [{name: "alerts;eu", rules: [{record: r, expr: up}]}]'')) = [''alerts;eu'']
   \<and> map Name (fst (rulefmt_Parse sample_collab
          ''groups: [{name: alerts, rules: [{alert: Down, expr: up == 0, for: 5m}]}]'')) = [''alerts'']
   \<and> Parse sample_collab
        \<lparr>FormatVersion = RuleFormatV2,
         Files = Some [(''rules'', ''groups: [{name: "alerts;eu", rules: [{record: r, expr: up}]}]''),
                       (''eu;rules'', ''groups: [{name: alerts, rules: [{alert: Down, expr: up == 0, for: 5m}]}]'')]\<rparr>
       = (Some [''alerts;eu;rules'' \<mapsto> [NewAlertingRule ''Down'' ''up == 0'' 300000000000 [] [] True]],
          None)\<close>
  by (simp add: Parse_V2 entries_def sample_collab_def sample_rulefmt_Parse_def
      sample_promql_ParseExpr_def group_key_def)

text \<open>
  C5, amended. For every successful V2 parse (of a configuration without a file name
  twice), the keys of the result are exactly the strings made of a group name, a semicolon
  and the file name of that group. When no group name contains a semicolon, or no file name
  does, two (file, group) pairs of the configuration with the same key have the same file
  name and the same group name; and then, group names being unique within each file, the
  result holds under the key of every group the rules converted from that group.
\<close>

theorem parseV2_group_keys:
  assumes v: "FormatVersion c = RuleFormatV2" and fs: "Files c = Some fs"
    and wf: "wf_map (Files c)" and ok: "Parse P c = (Some res, None)"
  shows "dom res = (\<Union>(fn, content) \<in> set fs.
                      (\<lambda>rg. Name rg @ '';'' @ fn) ` set (fst (rulefmt_Parse P content)))
       \<and> ((\<forall>(fn, content) \<in> set fs. \<forall>rg \<in> set (fst (rulefmt_Parse P content)).
               CHR '';'' \<notin> set (Name rg))
          \<or> (\<forall>(fn, content) \<in> set fs. CHR '';'' \<notin> set fn) \<longrightarrow>
            (\<forall>(fn1, content1) \<in> set fs. \<forall>(fn2, content2) \<in> set fs.
               \<forall>rg1 \<in> set (fst (rulefmt_Parse P content1)).
               \<forall>rg2 \<in> set (fst (rulefmt_Parse P content2)).
                 Name rg1 @ '';'' @ fn1 = Name rg2 @ '';'' @ fn2 \<longrightarrow>
                 fn1 = fn2 \<and> Name rg1 = Name rg2)
          \<and> ((\<forall>(fn, content) \<in> set fs. distinct (map Name (fst (rulefmt_Parse P content)))) \<longrightarrow>
               (\<forall>(fn, content) \<in> set fs. \<forall>rg \<in> set (fst (rulefmt_Parse P content)).
                  \<exists>rls. parseV2_rules P (Rules rg) [] = Inr rls
                        \<and> res (Name rg @ '';'' @ fn) = Some rls)))"
proof -
  let ?groups = "\<lambda>content. set (fst (rulefmt_Parse P content))"
  have p: "parseV2_files P fs Map.empty = (Some res, None)"
    using v fs ok by (simp add: Parse_V2 entries_def)
  have key: "Name rg @ '';'' @ fn = group_key (Name rg) fn" for rg :: rulefmt_RuleGroup and fn
    by (simp add: group_key_def)
  have present: "res (group_key (Name rg) fn) \<noteq> None"
    if "(fn, content) \<in> set fs" and "rg \<in> ?groups content" for fn content rg
    using p that by (rule parseV2_files_present)
  have origin: "\<exists>(fn, content) \<in> set fs. \<exists>rg \<in> ?groups content.
                  k = group_key (Name rg) fn \<and> parseV2_rules P (Rules rg) [] = Inr rls"
    if "res k = Some rls" for k rls
    using parseV2_files_origin [OF p that] by simp
  have "dom res = (\<Union>(fn, content) \<in> set fs. (\<lambda>rg. group_key (Name rg) fn) ` ?groups content)"
  proof (intro set_eqI iffI)
    fix k
    assume "k \<in> dom res"
    then obtain rls where "res k = Some rls" by auto
    from origin [OF this]
    show "k \<in> (\<Union>(fn, content) \<in> set fs. (\<lambda>rg. group_key (Name rg) fn) ` ?groups content)"
      by auto
  next
    fix k
    assume "k \<in> (\<Union>(fn, content) \<in> set fs. (\<lambda>rg. group_key (Name rg) fn) ` ?groups content)"
    then obtain fn content rg where "(fn, content) \<in> set fs" and "rg \<in> ?groups content"
      and "k = group_key (Name rg) fn"
      by auto
    with present show "k \<in> dom res" by auto
  qed
  then have dom: "dom res = (\<Union>(fn, content) \<in> set fs.
                      (\<lambda>rg. Name rg @ '';'' @ fn) ` set (fst (rulefmt_Parse P content)))"
    by (simp add: group_key_def)
  have rest: "(\<forall>(fn1, content1) \<in> set fs. \<forall>(fn2, content2) \<in> set fs.
               \<forall>rg1 \<in> ?groups content1. \<forall>rg2 \<in> ?groups content2.
                 Name rg1 @ '';'' @ fn1 = Name rg2 @ '';'' @ fn2 \<longrightarrow>
                 fn1 = fn2 \<and> Name rg1 = Name rg2)
          \<and> ((\<forall>(fn, content) \<in> set fs. distinct (map Name (fst (rulefmt_Parse P content)))) \<longrightarrow>
               (\<forall>(fn, content) \<in> set fs. \<forall>rg \<in> ?groups content.
                  \<exists>rls. parseV2_rules P (Rules rg) [] = Inr rls
                        \<and> res (Name rg @ '';'' @ fn) = Some rls))"
    if semi: "(\<forall>(fn, content) \<in> set fs. \<forall>rg \<in> ?groups content. CHR '';'' \<notin> set (Name rg))
              \<or> (\<forall>(fn, content) \<in> set fs. CHR '';'' \<notin> set fn)"
  proof -
    have inj: "fn1 = fn2 \<and> Name rg1 = Name rg2"
      if "(fn1, content1) \<in> set fs" and "(fn2, content2) \<in> set fs"
        and "rg1 \<in> ?groups content1" and "rg2 \<in> ?groups content2"
        and "Name rg1 @ '';'' @ fn1 = Name rg2 @ '';'' @ fn2"
      for fn1 content1 fn2 content2 rg1 rg2
      using semi
    proof
      assume "\<forall>(fn, content) \<in> set fs. \<forall>rg \<in> ?groups content. CHR '';'' \<notin> set (Name rg)"
      with that(1-4) have "CHR '';'' \<notin> set (Name rg1)" and "CHR '';'' \<notin> set (Name rg2)"
        by auto
      from group_key_inj_names [OF this] that(5) show ?thesis by (simp add: group_key_def)
    next
      assume "\<forall>(fn, content) \<in> set fs. CHR '';'' \<notin> set fn"
      with that(1,2) have "CHR '';'' \<notin> set fn1" and "CHR '';'' \<notin> set fn2"
        by auto
      from group_key_inj_files [OF this] that(5) show ?thesis by (simp add: group_key_def)
    qed
    have stored: "\<exists>rls. parseV2_rules P (Rules rg) [] = Inr rls
                        \<and> res (Name rg @ '';'' @ fn) = Some rls"
      if uniq: "\<forall>(fn, content) \<in> set fs. distinct (map Name (fst (rulefmt_Parse P content)))"
        and mem: "(fn, content) \<in> set fs" and rg: "rg \<in> ?groups content"
      for fn content rg
    proof -
      from present [OF mem rg] obtain rls where rls: "res (group_key (Name rg) fn) = Some rls"
        by auto
      from origin [OF rls] obtain fn' content' rg'
        where mem': "(fn', content') \<in> set fs" and rg': "rg' \<in> ?groups content'"
          and k: "group_key (Name rg) fn = group_key (Name rg') fn'"
          and conv: "parseV2_rules P (Rules rg') [] = Inr rls"
        by auto
      from k have "Name rg @ '';'' @ fn = Name rg' @ '';'' @ fn'" by (simp add: group_key_def)
      from inj [OF mem mem' rg rg' this] have same: "fn = fn'" "Name rg = Name rg'" by simp_all
      from wf fs have "distinct (map fst fs)" by (simp add: wf_map_def)
      with mem mem' same(1) have "content = content'"
        by (metis eq_key_imp_eq_value)
      with rg' have rg'': "rg' \<in> ?groups content" by simp
      from uniq mem have "inj_on Name (?groups content)"
        by (auto simp: distinct_map)
      with rg rg'' same(2) have "rg = rg'" by (auto dest: inj_onD)
      with conv rls show ?thesis by (simp add: group_key_def)
    qed
    from inj stored show ?thesis
      by (intro conjI ballI impI; clarify) blast+
  qed
  from dom rest show ?thesis by blast
qed

theorem parseV2_group_keys_witness:
  "wf_map (Some [(''a.rules'', ''groups: [{name: g, rules: [{record: r, expr: up}]}]''),
                 (''b.rules'', ''groups: [{name: alerts, rules: [{alert: Down, expr: up == 0, for: 5m}]}]'')])
   \<and> Parse sample_collab
        \<lparr>FormatVersion = RuleFormatV2,
         Files = Some [(''a.rules'', ''groups: [{name: g, rules: [{record: r, expr: up}]}]''),
                       (''b.rules'', ''groups: [{name: alerts, rules: [{alert: Down, expr: up == 0, for: 5m}]}]'')]\<rparr>
       = (Some [''g;a.rules'' \<mapsto> [NewRecordingRule ''r'' ''up'' []],
                ''alerts;b.rules'' \<mapsto> [NewAlertingRule ''Down'' ''up == 0'' 300000000000 [] [] True]],
          None)
   \<and> dom [''g;a.rules'' \<mapsto> [NewRecordingRule ''r'' ''up'' ([] :: (string \<times> string) list)],
           ''alerts;b.rules'' \<mapsto> [NewAlertingRule ''Down'' ''up == 0'' 300000000000 [] [] True]]
       = {''g'' @ '';'' @ ''a.rules'', ''alerts'' @ '';'' @ ''b.rules''}
   \<and> (\<exists>rls. parseV2_rules sample_collab
                [\<lparr>Record = ''r'', Alert = [], Expr = ''up'', For = 0, Labels = None,
                  Annotations = None\<rparr>] [] = Inr rls
            \<and> [''g;a.rules'' \<mapsto> [NewRecordingRule ''r'' ''up'' ([] :: (string \<times> string) list)],
               ''alerts;b.rules'' \<mapsto> [NewAlertingRule ''Down'' ''up == 0'' 300000000000 [] [] True]]
                 (''g'' @ '';'' @ ''a.rules'') = Some rls)"
proof -
  let ?ga = "''groups: [{name: g, rules: [{record: r, expr: up}]}]''"
  let ?gb = "''groups: [{name: alerts, rules: [{alert: Down, expr: up == 0, for: 5m}]}]''"
  let ?fs = "[(''a.rules'', ?ga), (''b.rules'', ?gb)]"
  let ?c = "\<lparr>FormatVersion = RuleFormatV2, Files = Some ?fs\<rparr>"
  let ?res = "[''g;a.rules'' \<mapsto> [NewRecordingRule ''r'' ''up'' ([] :: (string \<times> string) list)],
               ''alerts;b.rules'' \<mapsto> [NewAlertingRule ''Down'' ''up == 0'' 300000000000 [] [] True]]"
  let ?groups = "\<lambda>content. set (fst (rulefmt_Parse sample_collab content))"
  have v: "FormatVersion ?c = RuleFormatV2" and fs: "Files ?c = Some ?fs" by simp_all
  have wf: "wf_map (Files ?c)" by (simp add: wf_map_def)
  have ok: "Parse sample_collab ?c = (Some ?res, None)"
    by (simp add: Parse_V2 entries_def sample_collab_def sample_rulefmt_Parse_def
        sample_promql_ParseExpr_def group_key_def)
  have ga: "fst (rulefmt_Parse sample_collab ?ga)
            = [\<lparr>Name = ''g'', Rules = [\<lparr>Record = ''r'', Alert = [], Expr = ''up'', For = 0,
                                       Labels = None, Annotations = None\<rparr>]\<rparr>]"
    and gb: "fst (rulefmt_Parse sample_collab ?gb)
            = [\<lparr>Name = ''alerts'', Rules = [\<lparr>Record = [], Alert = ''Down'', Expr = ''up == 0'',
                                            For = 300000000000, Labels = None, Annotations = None\<rparr>]\<rparr>]"
    by (simp_all add: sample_collab_def sample_rulefmt_Parse_def)
  note all = parseV2_group_keys [OF v fs wf ok]
  from all have "dom ?res = (\<Union>(fn, content) \<in> set ?fs.
                      (\<lambda>rg. Name rg @ '';'' @ fn) ` ?groups content)"
    by (rule conjunct1)
  then have d: "dom ?res = {''g'' @ '';'' @ ''a.rules'', ''alerts'' @ '';'' @ ''b.rules''}"
    unfolding set_simps by (simp add: ga gb insert_commute)
  have semi: "\<forall>(fn, content) \<in> set ?fs. \<forall>rg \<in> ?groups content. CHR '';'' \<notin> set (Name rg)"
    by (simp add: ga gb)
  have uniq: "\<forall>(fn, content) \<in> set ?fs. distinct (map Name (fst (rulefmt_Parse sample_collab content)))"
    by (simp add: ga gb)
  from all semi uniq
  have "\<forall>(fn, content) \<in> set ?fs. \<forall>rg \<in> ?groups content.
          \<exists>rls. parseV2_rules sample_collab (Rules rg) [] = Inr rls
                \<and> ?res (Name rg @ '';'' @ fn) = Some rls"
    by blast
  then have s: "\<exists>rls. parseV2_rules sample_collab
                [\<lparr>Record = ''r'', Alert = [], Expr = ''up'', For = 0, Labels = None,
                  Annotations = None\<rparr>] [] = Inr rls
            \<and> ?res (''g'' @ '';'' @ ''a.rules'') = Some rls"
    by (simp add: ga)
  from wf ok d s show ?thesis by simp
qed

end
